theory Spec2Isabelle
  imports Main "HOL-Library.Sublist"
begin

section \<open>The plugin registrant of the Windows runner\<close>

text \<open>
  The development embeds \<^verbatim>\<open>windows/flutter/generated_plugin_registrant.cc\<close>. The file
  holds one function,
  \<^verbatim>\<open>void RegisterPlugins(flutter::PluginRegistry* registry)\<close>,
  a straight-line sequence of ten statements of the shape
  \<^verbatim>\<open>XRegisterWithRegistrar(registry->GetRegistrarForPlugin("X"));\<close>.

  Everything the function calls is external to the file: the virtual method
  \<^verbatim>\<open>GetRegistrarForPlugin\<close> of the registry and the ten registration functions of
  the plugins. They are parameters of the model. An external call may change the world
  outside the function (the state of the host and of the plugins), and it may return or
  throw; a C++ exception that nobody catches leaves the calling function at once.
\<close>

subsection \<open>External calls: state and exceptions\<close>

text \<open>
  A call takes the world \<open>'w\<close> and gives back the world it leaves and either a value
  (\<open>Inr\<close>) or the exception \<open>'x\<close> it threw (\<open>Inl\<close>).
\<close>

type_synonym ('w, 'x, 'a) call = "'w \<Rightarrow> ('x + 'a) \<times> 'w"

definition ret :: "'a \<Rightarrow> ('w, 'x, 'a) call" where
  "ret a = (\<lambda>w. (Inr a, w))"

text \<open>
  \<open>call_with f arg\<close> is the C++ expression \<^verbatim>\<open>f(arg)\<close>: the argument expression is
  evaluated first; if it throws, \<open>f\<close> is never entered.
\<close>

definition call_with :: "('a \<Rightarrow> ('w, 'x, 'b) call) \<Rightarrow> ('w, 'x, 'a) call \<Rightarrow> ('w, 'x, 'b) call" where
  "call_with f arg = (\<lambda>w. case arg w of (Inl x, w') \<Rightarrow> (Inl x, w') | (Inr a, w') \<Rightarrow> f a w')"

text \<open>\<open>seq s t\<close> is the statement sequence \<^verbatim>\<open>s; t\<close>.\<close>

definition seq :: "('w, 'x, unit) call \<Rightarrow> ('w, 'x, 'b) call \<Rightarrow> ('w, 'x, 'b) call" where
  "seq s t = (\<lambda>w. case s w of (Inl x, w') \<Rightarrow> (Inl x, w') | (Inr u, w') \<Rightarrow> t w')"

subsection \<open>The registry, the registrars and the registration functions\<close>

text \<open>
  \<^verbatim>\<open>FlutterDesktopPluginRegistrarRef\<close> is a pointer to an opaque structure: it is null
  or it refers to a registrar.
\<close>

datatype registrar_ref = NullRegistrar | Registrar nat

text \<open>
  \<^verbatim>\<open>flutter::PluginRegistry\<close> is an abstract class with the one virtual method that
  the function uses. The parameter \<^verbatim>\<open>registry\<close> of the source is a pointer to such an
  object; the model takes the object it points to (dereferencing a null pointer has no
  defined behaviour in C++, and the function is specified for a registry only).
\<close>

record ('w, 'x) PluginRegistry =
  GetRegistrarForPlugin :: "string \<Rightarrow> ('w, 'x, registrar_ref) call"

text \<open>The ten external registration functions, named as the source calls them.\<close>

datatype entry_point =
    DartotsuExtensionBridgePluginCApiRegisterWithRegistrar
  | DesktopWebviewWindowPluginRegisterWithRegistrar
  | FlutterInappwebviewWindowsPluginCApiRegisterWithRegistrar
  | FlutterQjsPluginRegisterWithRegistrar
  | FlutterSecureStorageWindowsPluginRegisterWithRegistrar
  | IsarFlutterLibsPluginRegisterWithRegistrar
  | MediaKitLibsWindowsVideoPluginCApiRegisterWithRegistrar
  | MediaKitVideoPluginCApiRegisterWithRegistrar
  | UrlLauncherWindowsRegisterWithRegistrar
  | WindowToFrontPluginRegisterWithRegistrar

text \<open>
  What the linker binds these names to: each takes a registrar and returns nothing.
\<close>

type_synonym ('w, 'x) plugins = "entry_point \<Rightarrow> registrar_ref \<Rightarrow> ('w, 'x, unit) call"

subsection \<open>RegisterPlugins\<close>

definition RegisterPlugins :: "('w, 'x) plugins \<Rightarrow> ('w, 'x) PluginRegistry \<Rightarrow> ('w, 'x, unit) call" where
  "RegisterPlugins extern registry =
    seq (call_with (extern DartotsuExtensionBridgePluginCApiRegisterWithRegistrar)
          (GetRegistrarForPlugin registry ''DartotsuExtensionBridgePluginCApi''))
   (seq (call_with (extern DesktopWebviewWindowPluginRegisterWithRegistrar)
          (GetRegistrarForPlugin registry ''DesktopWebviewWindowPlugin''))
   (seq (call_with (extern FlutterInappwebviewWindowsPluginCApiRegisterWithRegistrar)
          (GetRegistrarForPlugin registry ''FlutterInappwebviewWindowsPluginCApi''))
   (seq (call_with (extern FlutterQjsPluginRegisterWithRegistrar)
          (GetRegistrarForPlugin registry ''FlutterQjsPlugin''))
   (seq (call_with (extern FlutterSecureStorageWindowsPluginRegisterWithRegistrar)
          (GetRegistrarForPlugin registry ''FlutterSecureStorageWindowsPlugin''))
   (seq (call_with (extern IsarFlutterLibsPluginRegisterWithRegistrar)
          (GetRegistrarForPlugin registry ''IsarFlutterLibsPlugin''))
   (seq (call_with (extern MediaKitLibsWindowsVideoPluginCApiRegisterWithRegistrar)
          (GetRegistrarForPlugin registry ''MediaKitLibsWindowsVideoPluginCApi''))
   (seq (call_with (extern MediaKitVideoPluginCApiRegisterWithRegistrar)
          (GetRegistrarForPlugin registry ''MediaKitVideoPluginCApi''))
   (seq (call_with (extern UrlLauncherWindowsRegisterWithRegistrar)
          (GetRegistrarForPlugin registry ''UrlLauncherWindows''))
        (call_with (extern WindowToFrontPluginRegisterWithRegistrar)
          (GetRegistrarForPlugin registry ''WindowToFrontPlugin''))))))))))"


subsection \<open>Observing a run: the recording registry and plugins\<close>

text \<open>
  A run is observed the way a test would: the registry and the registration functions are
  wrapped so that each call appends an event to a log kept next to the world. The event
  holds what the call was given and how it ended. The wrapped call behaves as the
  original does.
\<close>

datatype 'x event =
    Lookup string "'x + registrar_ref"
  | Register entry_point registrar_ref "'x + unit"

definition recording_registry :: "('w, 'x) PluginRegistry \<Rightarrow> ('w \<times> 'x event list, 'x) PluginRegistry" where
  "recording_registry registry =
     \<lparr>GetRegistrarForPlugin = (\<lambda>name (w, log).
         case GetRegistrarForPlugin registry name w of
           (res, w') \<Rightarrow> (res, (w', log @ [Lookup name res])))\<rparr>"

definition recording_plugins :: "('w, 'x) plugins \<Rightarrow> ('w \<times> 'x event list, 'x) plugins" where
  "recording_plugins extern =
     (\<lambda>entry registrar (w, log).
         case extern entry registrar w of
           (res, w') \<Rightarrow> (res, (w', log @ [Register entry registrar res])))"

definition observed :: "('w, 'x) plugins \<Rightarrow> ('w, 'x) PluginRegistry \<Rightarrow> 'w \<Rightarrow> 'x event list" where
  "observed extern registry w =
     snd (snd (RegisterPlugins (recording_plugins extern) (recording_registry registry) (w, [])))"


text \<open>Reading a log.\<close>

fun lookups :: "'x event list \<Rightarrow> string list" where
  "lookups [] = []"
| "lookups (Lookup name res # evs) = name # lookups evs"
| "lookups (Register entry registrar res # evs) = lookups evs"

fun lookup_results :: "'x event list \<Rightarrow> registrar_ref list" where
  "lookup_results [] = []"
| "lookup_results (Lookup name (Inr r) # evs) = r # lookup_results evs"
| "lookup_results (Lookup name (Inl x) # evs) = lookup_results evs"
| "lookup_results (Register entry registrar res # evs) = lookup_results evs"

fun registrations :: "'x event list \<Rightarrow> (entry_point \<times> registrar_ref) list" where
  "registrations [] = []"
| "registrations (Lookup name res # evs) = registrations evs"
| "registrations (Register entry registrar res # evs) = (entry, registrar) # registrations evs"

fun failure :: "'x event \<Rightarrow> 'x option" where
  "failure (Lookup name (Inl x)) = Some x"
| "failure (Lookup name (Inr r)) = None"
| "failure (Register entry registrar (Inl x)) = Some x"
| "failure (Register entry registrar (Inr u)) = None"

datatype call_id = LookupCall string | RegisterCall entry_point

fun call_of :: "'x event \<Rightarrow> call_id" where
  "call_of (Lookup name res) = LookupCall name"
| "call_of (Register entry registrar res) = RegisterCall entry"

subsection \<open>The declared list\<close>

text \<open>
  The ten plugin identifiers in the order the specification lists them, and the
  registration function that belongs to each identifier: the function whose name is the
  identifier followed by \<^verbatim>\<open>RegisterWithRegistrar\<close>.
\<close>

definition declared_identifiers :: "string list" where
  "declared_identifiers =
    [''DartotsuExtensionBridgePluginCApi'',
     ''DesktopWebviewWindowPlugin'',
     ''FlutterInappwebviewWindowsPluginCApi'',
     ''FlutterQjsPlugin'',
     ''FlutterSecureStorageWindowsPlugin'',
     ''IsarFlutterLibsPlugin'',
     ''MediaKitLibsWindowsVideoPluginCApi'',
     ''MediaKitVideoPluginCApi'',
     ''UrlLauncherWindows'',
     ''WindowToFrontPlugin'']"

fun symbol_name :: "entry_point \<Rightarrow> string" where
  "symbol_name DartotsuExtensionBridgePluginCApiRegisterWithRegistrar =
     ''DartotsuExtensionBridgePluginCApiRegisterWithRegistrar''"
| "symbol_name DesktopWebviewWindowPluginRegisterWithRegistrar =
     ''DesktopWebviewWindowPluginRegisterWithRegistrar''"
| "symbol_name FlutterInappwebviewWindowsPluginCApiRegisterWithRegistrar =
     ''FlutterInappwebviewWindowsPluginCApiRegisterWithRegistrar''"
| "symbol_name FlutterQjsPluginRegisterWithRegistrar =
     ''FlutterQjsPluginRegisterWithRegistrar''"
| "symbol_name FlutterSecureStorageWindowsPluginRegisterWithRegistrar =
     ''FlutterSecureStorageWindowsPluginRegisterWithRegistrar''"
| "symbol_name IsarFlutterLibsPluginRegisterWithRegistrar =
     ''IsarFlutterLibsPluginRegisterWithRegistrar''"
| "symbol_name MediaKitLibsWindowsVideoPluginCApiRegisterWithRegistrar =
     ''MediaKitLibsWindowsVideoPluginCApiRegisterWithRegistrar''"
| "symbol_name MediaKitVideoPluginCApiRegisterWithRegistrar =
     ''MediaKitVideoPluginCApiRegisterWithRegistrar''"
| "symbol_name UrlLauncherWindowsRegisterWithRegistrar =
     ''UrlLauncherWindowsRegisterWithRegistrar''"
| "symbol_name WindowToFrontPluginRegisterWithRegistrar =
     ''WindowToFrontPluginRegisterWithRegistrar''"

definition plugin_identifier :: "entry_point \<Rightarrow> string" where
  "plugin_identifier entry =
     take (length (symbol_name entry) - length ''RegisterWithRegistrar'') (symbol_name entry)"

definition declared_entry_points :: "entry_point list" where
  "declared_entry_points =
    [DartotsuExtensionBridgePluginCApiRegisterWithRegistrar,
     DesktopWebviewWindowPluginRegisterWithRegistrar,
     FlutterInappwebviewWindowsPluginCApiRegisterWithRegistrar,
     FlutterQjsPluginRegisterWithRegistrar,
     FlutterSecureStorageWindowsPluginRegisterWithRegistrar,
     IsarFlutterLibsPluginRegisterWithRegistrar,
     MediaKitLibsWindowsVideoPluginCApiRegisterWithRegistrar,
     MediaKitVideoPluginCApiRegisterWithRegistrar,
     UrlLauncherWindowsRegisterWithRegistrar,
     WindowToFrontPluginRegisterWithRegistrar]"

definition declared_calls :: "call_id list" where
  "declared_calls =
     concat (map (\<lambda>entry. [LookupCall (plugin_identifier entry), RegisterCall entry])
       declared_entry_points)"

text \<open>
  The same behaviour as a loop over a table of (identifier, registration function) pairs,
  for any table: the form in which the properties are proved, by induction on the table.
\<close>

fun register_each :: "(string \<times> entry_point) list \<Rightarrow> ('w, 'x) plugins \<Rightarrow> ('w, 'x) PluginRegistry \<Rightarrow> ('w, 'x, unit) call" where
  "register_each [] extern registry = ret ()"
| "register_each ((name, entry) # rest) extern registry =
     seq (call_with (extern entry) (GetRegistrarForPlugin registry name))
         (register_each rest extern registry)"

text \<open>The events a run over a table produces, computed without the recording wrappers.\<close>

fun trace :: "(string \<times> entry_point) list \<Rightarrow> ('w, 'x) plugins \<Rightarrow> ('w, 'x) PluginRegistry \<Rightarrow> 'w \<Rightarrow> 'x event list" where
  "trace [] extern registry w = []"
| "trace ((name, entry) # rest) extern registry w =
     (case GetRegistrarForPlugin registry name w of
        (Inl x, w1) \<Rightarrow> [Lookup name (Inl x)]
      | (Inr r, w1) \<Rightarrow> Lookup name (Inr r) #
          (case extern entry r w1 of
             (Inl x, w2) \<Rightarrow> [Register entry r (Inl x)]
           | (Inr u, w2) \<Rightarrow> Register entry r (Inr u) # trace rest extern registry w2))"

definition plugin_table :: "(string \<times> entry_point) list" where
  "plugin_table = zip declared_identifiers declared_entry_points"

definition table_calls :: "(string \<times> entry_point) list \<Rightarrow> call_id list" where
  "table_calls ps = concat (map (\<lambda>(name, entry). [LookupCall name, RegisterCall entry]) ps)"

text \<open>
  The log of a run in which every call returned and the ten lookups returned the
  registrars \<open>rs\<close>, in this order.
\<close>

definition complete_log :: "registrar_ref list \<Rightarrow> 'x event list" where
  "complete_log rs =
     concat (map (\<lambda>(entry, r). [Lookup (plugin_identifier entry) (Inr r), Register entry r (Inr ())])
       (zip declared_entry_points rs))"

text \<open>Registries and plugins for the examples.\<close>

definition marker_registry :: "(string \<Rightarrow> registrar_ref) \<Rightarrow> ('w, 'x) PluginRegistry" where
  "marker_registry marker = \<lparr>GetRegistrarForPlugin = (\<lambda>name. ret (marker name))\<rparr>"

definition accepting_plugins :: "('w, 'x) plugins" where
  "accepting_plugins = (\<lambda>entry registrar. ret ())"

text \<open>A registry that hands out no registrar: every lookup returns null.\<close>

definition null_registry :: "('w, 'x) PluginRegistry" where
  "null_registry = marker_registry (\<lambda>name. NullRegistrar)"

text \<open>
  A world that counts the external calls made so far; the registry hands out a fresh
  registrar at every lookup.
\<close>

definition counting_registry :: "(nat, 'x) PluginRegistry" where
  "counting_registry = \<lparr>GetRegistrarForPlugin = (\<lambda>name w. (Inr (Registrar w), Suc w))\<rparr>"

definition counting_plugins :: "(nat, 'x) plugins" where
  "counting_plugins = (\<lambda>entry registrar w. (Inr (), Suc w))"

text \<open>A registry that does not know one of the plugins and throws at its lookup.\<close>

definition incomplete_registry :: "(nat, string) PluginRegistry" where
  "incomplete_registry =
     \<lparr>GetRegistrarForPlugin = (\<lambda>name w.
        if name = ''FlutterQjsPlugin'' then (Inl ''plugin not found'', Suc w)
        else (Inr (Registrar w), Suc w))\<rparr>"



section \<open>Properties\<close>

lemma seq_ret_unit: "seq s (ret ()) = s"
  by (rule ext) (simp add: seq_def ret_def split: prod.splits sum.splits)

lemma plugin_table_eq:
  "plugin_table =
    [(''DartotsuExtensionBridgePluginCApi'', DartotsuExtensionBridgePluginCApiRegisterWithRegistrar),
     (''DesktopWebviewWindowPlugin'', DesktopWebviewWindowPluginRegisterWithRegistrar),
     (''FlutterInappwebviewWindowsPluginCApi'', FlutterInappwebviewWindowsPluginCApiRegisterWithRegistrar),
     (''FlutterQjsPlugin'', FlutterQjsPluginRegisterWithRegistrar),
     (''FlutterSecureStorageWindowsPlugin'', FlutterSecureStorageWindowsPluginRegisterWithRegistrar),
     (''IsarFlutterLibsPlugin'', IsarFlutterLibsPluginRegisterWithRegistrar),
     (''MediaKitLibsWindowsVideoPluginCApi'', MediaKitLibsWindowsVideoPluginCApiRegisterWithRegistrar),
     (''MediaKitVideoPluginCApi'', MediaKitVideoPluginCApiRegisterWithRegistrar),
     (''UrlLauncherWindows'', UrlLauncherWindowsRegisterWithRegistrar),
     (''WindowToFrontPlugin'', WindowToFrontPluginRegisterWithRegistrar)]"
  by (simp add: plugin_table_def declared_identifiers_def declared_entry_points_def)

lemma RegisterPlugins_register_each:
  "RegisterPlugins extern registry = register_each plugin_table extern registry"
  by (simp add: RegisterPlugins_def plugin_table_eq seq_ret_unit)

lemma recording_registry_lookup:
  "GetRegistrarForPlugin (recording_registry registry) name (w, log) =
     (fst (GetRegistrarForPlugin registry name w),
      (snd (GetRegistrarForPlugin registry name w),
       log @ [Lookup name (fst (GetRegistrarForPlugin registry name w))]))"
  by (simp add: recording_registry_def split: prod.splits)

lemma recording_plugins_call:
  "recording_plugins extern entry registrar (w, log) =
     (fst (extern entry registrar w),
      (snd (extern entry registrar w),
       log @ [Register entry registrar (fst (extern entry registrar w))]))"
  by (simp add: recording_plugins_def split: prod.splits)

lemma register_each_recorded:
  "register_each ps (recording_plugins extern) (recording_registry registry) (w, log) =
     (fst (register_each ps extern registry w),
      (snd (register_each ps extern registry w), log @ trace ps extern registry w))"
proof (induction ps arbitrary: w log)
  case Nil
  show ?case by (simp add: ret_def)
next
  case (Cons p ps)
  obtain name entry where p: "p = (name, entry)" by (cases p)
  show ?case
    unfolding p
    by (simp add: seq_def call_with_def recording_registry_lookup recording_plugins_call Cons.IH
        split: prod.splits sum.splits)
qed

lemma observed_trace: "observed extern registry w = trace plugin_table extern registry w"
  by (simp add: observed_def RegisterPlugins_register_each register_each_recorded)

lemma RegisterPlugins_recorded_result:
  "fst (RegisterPlugins (recording_plugins extern) (recording_registry registry) (w, log)) =
     fst (RegisterPlugins extern registry w)"
  by (simp add: RegisterPlugins_register_each register_each_recorded)

lemma trace_calls_prefix:
  "prefix (map call_of (trace ps extern registry w)) (table_calls ps)"
proof (induction ps arbitrary: w)
  case Nil
  show ?case by (simp add: table_calls_def)
next
  case (Cons p ps)
  obtain name entry where p: "p = (name, entry)" by (cases p)
  show ?case
    unfolding p using Cons.IH
    by (simp add: table_calls_def split: prod.splits sum.splits)
qed

lemma trace_complete:
  assumes "fst (register_each ps extern registry w) = Inr ()"
  shows "trace ps extern registry w =
           concat (map (\<lambda>((name, entry), r). [Lookup name (Inr r), Register entry r (Inr ())])
             (zip ps (lookup_results (trace ps extern registry w))))
         \<and> length (lookup_results (trace ps extern registry w)) = length ps"
  using assms
proof (induction ps arbitrary: w)
  case Nil
  show ?case by simp
next
  case (Cons p ps)
  obtain name entry where p: "p = (name, entry)" by (cases p)
  obtain a w1 where g: "GetRegistrarForPlugin registry name w = (a, w1)" by force
  from Cons.prems obtain r where a: "a = Inr r"
    unfolding p by (cases a) (simp_all add: seq_def call_with_def g)
  obtain b w2 where e: "extern entry r w1 = (b, w2)" by force
  from Cons.prems have b: "b = Inr ()"
    unfolding p by (cases b) (simp_all add: seq_def call_with_def g a e)
  from Cons.prems have "fst (register_each ps extern registry w2) = Inr ()"
    unfolding p by (simp add: seq_def call_with_def g a e b)
  from Cons.IH [OF this] show ?case
    unfolding p by (simp add: g a e b)
qed

lemma trace_failure:
  "fst (register_each ps extern registry w) = Inl x \<longleftrightarrow>
     trace ps extern registry w \<noteq> [] \<and> failure (last (trace ps extern registry w)) = Some x"
proof (induction ps arbitrary: w)
  case Nil
  show ?case by (simp add: ret_def)
next
  case (Cons p ps)
  obtain name entry where p: "p = (name, entry)" by (cases p)
  show ?case
    unfolding p using Cons.IH
    by (auto simp add: seq_def call_with_def split: prod.splits sum.splits)
qed

lemma trace_butlast:
  "ev \<in> set (butlast (trace ps extern registry w)) \<Longrightarrow> failure ev = None"
proof (induction ps arbitrary: w)
  case Nil
  then show ?case by simp
next
  case (Cons p ps)
  obtain name entry where p: "p = (name, entry)" by (cases p)
  from Cons.prems show ?case
    unfolding p using Cons.IH
    by (auto split: prod.splits sum.splits if_splits)
qed

lemma trace_success:
  "fst (register_each ps extern registry w) = Inr () \<longleftrightarrow>
     list_all (\<lambda>ev. failure ev = None) (trace ps extern registry w)"
proof (induction ps arbitrary: w)
  case Nil
  show ?case by (simp add: ret_def)
next
  case (Cons p ps)
  obtain name entry where p: "p = (name, entry)" by (cases p)
  show ?case
    unfolding p using Cons.IH
    by (auto simp add: seq_def call_with_def split: prod.splits sum.splits)
qed

lemma trace_forwarded:
  assumes "i < length (trace ps extern registry w)"
    and "trace ps extern registry w ! i = Lookup name (Inr r)"
  shows "Suc i < length (trace ps extern registry w) \<and>
         (\<exists>entry res. trace ps extern registry w ! Suc i = Register entry r res \<and> (name, entry) \<in> set ps)"
  using assms
proof (induction ps arbitrary: w i)
  case Nil
  then show ?case by simp
next
  case (Cons p ps)
  obtain n e where p: "p = (n, e)" by (cases p)
  obtain a w1 where g: "GetRegistrarForPlugin registry n w = (a, w1)" by force
  show ?case
  proof (cases a)
    case (Inl x)
    have t: "trace (p # ps) extern registry w = [Lookup n (Inl x)]"
      unfolding p by (simp add: g Inl)
    from Cons.prems [unfolded t] show ?thesis by simp
  next
    case (Inr r1)
    obtain b w2 where ex: "extern e r1 w1 = (b, w2)" by force
    show ?thesis
    proof (cases b)
      case (Inl x)
      have t: "trace (p # ps) extern registry w = [Lookup n (Inr r1), Register e r1 (Inl x)]"
        unfolding p by (simp add: g Inr ex Inl)
      from Cons.prems [unfolded t] show ?thesis unfolding t
        by (cases i) (auto simp add: p)
    next
      case b: (Inr u)
      have t: "trace (p # ps) extern registry w =
          Lookup n (Inr r1) # Register e r1 (Inr u) # trace ps extern registry w2"
        unfolding p by (simp add: g Inr ex b)
      show ?thesis
      proof (cases i)
        case 0
        with Cons.prems [unfolded t] show ?thesis unfolding t by (simp add: p)
      next
        case (Suc j)
        show ?thesis
        proof (cases j)
          case 0
          with Cons.prems [unfolded t] Suc show ?thesis by simp
        next
          case (Suc k)
          with Cons.prems [unfolded t] \<open>i = Suc j\<close>
          have "k < length (trace ps extern registry w2)"
            and "trace ps extern registry w2 ! k = Lookup name (Inr r)"
            by simp_all
          from Cons.IH [OF this] show ?thesis
            unfolding t \<open>i = Suc j\<close> Suc by auto
        qed
      qed
    qed
  qed
qed

lemma register_each_frame:
  fixes extern :: "('w, 'x) plugins"
  assumes refl: "\<And>w. R w w"
    and trans: "\<And>a b c. R a b \<Longrightarrow> R b c \<Longrightarrow> R a c"
    and lookup: "\<And>name w. name \<in> fst ` set ps \<Longrightarrow> R w (snd (GetRegistrarForPlugin registry name w))"
    and call: "\<And>entry (r :: registrar_ref) w. entry \<in> snd ` set ps \<Longrightarrow> R w (snd (extern entry r w))"
  shows "R w (snd (register_each ps extern registry w))"
  using lookup call
proof (induction ps arbitrary: w)
  case Nil
  show ?case by (simp add: ret_def refl)
next
  case (Cons p ps)
  obtain n e where p: "p = (n, e)" by (cases p)
  obtain a w1 where g: "GetRegistrarForPlugin registry n w = (a, w1)" by force
  have "n \<in> fst ` set (p # ps)" by (simp add: p)
  from Cons.prems(1) [OF this] have s1: "R w w1" by (metis g snd_conv)
  show ?case
  proof (cases a)
    case (Inl x)
    then show ?thesis unfolding p using s1 by (simp add: seq_def call_with_def g)
  next
    case (Inr r1)
    obtain b w2 where ex: "extern e r1 w1 = (b, w2)" by force
    have "e \<in> snd ` set (p # ps)" by (simp add: p)
    from Cons.prems(2) [OF this] have s2: "R w1 w2" by (metis ex snd_conv)
    have s12: "R w w2" using trans [OF s1 s2] .
    show ?thesis
    proof (cases b)
      case (Inl x)
      then show ?thesis unfolding p using s12 by (simp add: seq_def call_with_def g Inr ex)
    next
      case b: (Inr u)
      have "R w2 (snd (register_each ps extern registry w2))"
        by (rule Cons.IH) (use Cons.prems in \<open>auto simp add: p\<close>)
      from trans [OF s12 this] show ?thesis
        unfolding p by (simp add: seq_def call_with_def g Inr ex b)
    qed
  qed
qed







lemma declared_lengths:
  "length declared_identifiers = 10" "length declared_entry_points = 10"
  by (simp_all add: declared_identifiers_def declared_entry_points_def)




lemma identifiers_of_entry_points:
  "map plugin_identifier declared_entry_points = declared_identifiers"
  by (simp add: plugin_identifier_def declared_entry_points_def declared_identifiers_def)

lemma plugin_table_fst: "map fst plugin_table = declared_identifiers"
  by (simp add: plugin_table_def declared_lengths)


lemma plugin_table_entries:
  "plugin_table = map (\<lambda>entry. (plugin_identifier entry, entry)) declared_entry_points"
  by (simp add: plugin_table_eq plugin_identifier_def declared_entry_points_def)

lemma plugin_table_calls: "table_calls plugin_table = declared_calls"
  by (simp add: plugin_table_entries table_calls_def declared_calls_def comp_def)

lemma declared_calls_distinct: "distinct declared_calls"
  by (simp add: declared_calls_def declared_entry_points_def plugin_identifier_def)

lemma declared_calls_length: "length declared_calls = 20"
  by (simp add: declared_calls_def declared_entry_points_def)

lemma complete_log_lookups:
  "length rs = 10 \<Longrightarrow> lookups (complete_log rs :: 'x event list) = declared_identifiers"
proof -
  have "length es = length rs \<Longrightarrow>
    lookups (concat (map (\<lambda>(entry, r). [Lookup (plugin_identifier entry) (Inr r),
       Register entry r (Inr ())]) (zip es rs)) :: 'x event list) = map plugin_identifier es" for es
    by (induction es rs rule: list_induct2) simp_all
  from this [of declared_entry_points] show "length rs = 10 \<Longrightarrow> ?thesis"
    by (simp add: complete_log_def declared_lengths identifiers_of_entry_points)
qed

lemma complete_log_registrations:
  "length rs = 10 \<Longrightarrow> registrations (complete_log rs :: 'x event list) = zip declared_entry_points rs"
proof -
  have "length es = length rs \<Longrightarrow>
    registrations (concat (map (\<lambda>(entry, r). [Lookup (plugin_identifier entry) (Inr r),
       Register entry r (Inr ())]) (zip es rs)) :: 'x event list) = zip es rs" for es
    by (induction es rs rule: list_induct2) simp_all
  from this [of declared_entry_points] show "length rs = 10 \<Longrightarrow> ?thesis"
    by (simp add: complete_log_def declared_lengths)
qed

lemma complete_log_calls:
  "length rs = 10 \<Longrightarrow> map call_of (complete_log rs :: 'x event list) = declared_calls"
proof -
  have "length es = length rs \<Longrightarrow>
    map call_of (concat (map (\<lambda>(entry, r). [Lookup (plugin_identifier entry) (Inr r),
       Register entry r (Inr ())]) (zip es rs)) :: 'x event list) =
    concat (map (\<lambda>entry. [LookupCall (plugin_identifier entry), RegisterCall entry]) es)" for es
    by (induction es rs rule: list_induct2) simp_all
  from this [of declared_entry_points] show "length rs = 10 \<Longrightarrow> ?thesis"
    by (simp add: complete_log_def declared_lengths declared_calls_def)
qed



lemma observed_complete:
  fixes extern :: "('w, 'x) plugins"
  assumes "fst (RegisterPlugins extern registry w) = Inr ()"
  shows "observed extern registry w = complete_log (lookup_results (observed extern registry w))"
    and "length (lookup_results (observed extern registry w)) = 10"
proof -
  from assms have ok: "fst (register_each plugin_table extern registry w) = Inr ()"
    by (simp add: RegisterPlugins_register_each)
  have len: "length plugin_table = 10"
    by (simp add: plugin_table_def declared_lengths)
  from trace_complete [OF ok] len
  show "length (lookup_results (observed extern registry w)) = 10"
    by (simp add: observed_trace)
  have "zip plugin_table rs = map (\<lambda>(entry, r). ((plugin_identifier entry, entry), r))
          (zip declared_entry_points rs)" for rs :: "registrar_ref list"
    by (simp add: plugin_table_entries zip_map1)
  then have "concat (map (\<lambda>((name, entry), r). [Lookup name (Inr r), Register entry r (Inr ())])
             (zip plugin_table rs)) = (complete_log rs :: 'x event list)" for rs
    by (simp add: complete_log_def comp_def case_prod_unfold)
  then have b: "concat (map (\<lambda>((name, entry), r). [Lookup name (Inr r), Register entry r (Inr ())])
             (zip plugin_table (lookup_results (trace plugin_table extern registry w)))) =
          (complete_log (lookup_results (trace plugin_table extern registry w)) :: 'x event list)" .
  have a: "trace plugin_table extern registry w =
     concat (map (\<lambda>((name, entry), r). [Lookup name (Inr r), Register entry r (Inr ())])
             (zip plugin_table (lookup_results (trace plugin_table extern registry w))))"
    using trace_complete [OF ok] by (rule conjunct1)
  show "observed extern registry w = complete_log (lookup_results (observed extern registry w))"
    unfolding observed_trace by (rule trans [OF a b])
qed



lemma observed_calls_prefix:
  "prefix (map call_of (observed extern registry w)) declared_calls"
  using trace_calls_prefix [of plugin_table extern registry w]
  by (simp add: observed_trace plugin_table_calls)

lemma counting_run_returns:
  "fst (RegisterPlugins (counting_plugins :: (nat, 'x) plugins) counting_registry w) = Inr ()"
  by (simp add: RegisterPlugins_def seq_def call_with_def counting_plugins_def counting_registry_def)

section \<open>The claims\<close>

text \<open>
  In what follows a run \<^emph>\<open>returns\<close> when \<open>fst (RegisterPlugins extern registry w) = Inr ()\<close>:
  no external call threw. \<open>observed extern registry w\<close> is the log of the run.
\<close>






lemma accepting_marker_returns:
  "fst (RegisterPlugins accepting_plugins (marker_registry marker) w) = Inr ()"
  by (simp add: RegisterPlugins_def seq_def call_with_def accepting_plugins_def marker_registry_def
      ret_def)

text \<open>
  Claim C2. The ten registrations occur in the declared order, as a registry that records
  the calls sees them.

  For every registry, plugins and world, the calls that a run makes are an initial part of
  the declared sequence (lookup of the first identifier, its registration function, lookup
  of the second identifier, and so on). When the run returns, they are the whole sequence:
  the identifiers looked up and the registration functions called are the ten of the
  declaration, in its order.
\<close>

theorem RegisterPlugins_declared_order:
  fixes extern :: "('w, 'x) plugins"
  shows "prefix (map call_of (observed extern registry w)) declared_calls \<and>
    (fst (RegisterPlugins extern registry w) = Inr () \<longrightarrow>
       map call_of (observed extern registry w) = declared_calls \<and>
       lookups (observed extern registry w) =
         [''DartotsuExtensionBridgePluginCApi'',
          ''DesktopWebviewWindowPlugin'',
          ''FlutterInappwebviewWindowsPluginCApi'',
          ''FlutterQjsPlugin'',
          ''FlutterSecureStorageWindowsPlugin'',
          ''IsarFlutterLibsPlugin'',
          ''MediaKitLibsWindowsVideoPluginCApi'',
          ''MediaKitVideoPluginCApi'',
          ''UrlLauncherWindows'',
          ''WindowToFrontPlugin''] \<and>
       map fst (registrations (observed extern registry w)) =
         [DartotsuExtensionBridgePluginCApiRegisterWithRegistrar,
          DesktopWebviewWindowPluginRegisterWithRegistrar,
          FlutterInappwebviewWindowsPluginCApiRegisterWithRegistrar,
          FlutterQjsPluginRegisterWithRegistrar,
          FlutterSecureStorageWindowsPluginRegisterWithRegistrar,
          IsarFlutterLibsPluginRegisterWithRegistrar,
          MediaKitLibsWindowsVideoPluginCApiRegisterWithRegistrar,
          MediaKitVideoPluginCApiRegisterWithRegistrar,
          UrlLauncherWindowsRegisterWithRegistrar,
          WindowToFrontPluginRegisterWithRegistrar])"
proof (intro conjI impI)
  show "prefix (map call_of (observed extern registry w)) declared_calls"
    by (rule observed_calls_prefix)
next
  assume ok: "fst (RegisterPlugins extern registry w) = Inr ()"
  define rs where "rs = lookup_results (observed extern registry w)"
  have log: "observed extern registry w = complete_log rs" and len: "length rs = 10"
    unfolding rs_def by (rule observed_complete [OF ok])+
  show "map call_of (observed extern registry w) = declared_calls"
    by (simp add: log complete_log_calls [OF len])
  have "lookups (observed extern registry w) = declared_identifiers"
    by (simp add: log complete_log_lookups [OF len])
  then show "lookups (observed extern registry w) =
         [''DartotsuExtensionBridgePluginCApi'',
          ''DesktopWebviewWindowPlugin'',
          ''FlutterInappwebviewWindowsPluginCApi'',
          ''FlutterQjsPlugin'',
          ''FlutterSecureStorageWindowsPlugin'',
          ''IsarFlutterLibsPlugin'',
          ''MediaKitLibsWindowsVideoPluginCApi'',
          ''MediaKitVideoPluginCApi'',
          ''UrlLauncherWindows'',
          ''WindowToFrontPlugin'']"
    by (simp only: declared_identifiers_def)
  have "map fst (registrations (observed extern registry w)) = declared_entry_points"
    by (simp add: log complete_log_registrations [OF len] declared_lengths len)
  then show "map fst (registrations (observed extern registry w)) =
         [DartotsuExtensionBridgePluginCApiRegisterWithRegistrar,
          DesktopWebviewWindowPluginRegisterWithRegistrar,
          FlutterInappwebviewWindowsPluginCApiRegisterWithRegistrar,
          FlutterQjsPluginRegisterWithRegistrar,
          FlutterSecureStorageWindowsPluginRegisterWithRegistrar,
          IsarFlutterLibsPluginRegisterWithRegistrar,
          MediaKitLibsWindowsVideoPluginCApiRegisterWithRegistrar,
          MediaKitVideoPluginCApiRegisterWithRegistrar,
          UrlLauncherWindowsRegisterWithRegistrar,
          WindowToFrontPluginRegisterWithRegistrar]"
    by (simp only: declared_entry_points_def)
qed

theorem RegisterPlugins_declared_order_witness:
  "fst (RegisterPlugins (counting_plugins :: (nat, unit) plugins) counting_registry 0) = Inr () \<and>
   lookups (observed (counting_plugins :: (nat, unit) plugins) counting_registry 0) ! 3 =
     ''FlutterQjsPlugin'' \<and>
   map fst (registrations (observed (counting_plugins :: (nat, unit) plugins) counting_registry 0)) ! 9 =
     WindowToFrontPluginRegisterWithRegistrar"
proof -
  have ok: "fst (RegisterPlugins (counting_plugins :: (nat, unit) plugins) counting_registry 0) = Inr ()"
    by (rule counting_run_returns)
  show ?thesis
    using ok RegisterPlugins_declared_order
        [of "counting_plugins :: (nat, unit) plugins" counting_registry 0]
    by simp
qed





lemma incomplete_run_fails:
  "fst (RegisterPlugins (counting_plugins :: (nat, string) plugins) incomplete_registry 0) =
     Inl ''plugin not found''"
  by (simp add: RegisterPlugins_def seq_def call_with_def counting_plugins_def
      incomplete_registry_def)






lemma plugin_table_identifier:
  "(name, entry) \<in> set plugin_table \<Longrightarrow> plugin_identifier entry = name"
  by (auto simp add: plugin_table_entries)

lemma RegisterPlugins_recorded_world:
  "fst (snd (RegisterPlugins (recording_plugins extern) (recording_registry registry) (w, log))) =
     snd (RegisterPlugins extern registry w)"
  by (simp add: RegisterPlugins_register_each register_each_recorded)


lemma null_observed:
  "observed (accepting_plugins :: ('w, 'x) plugins) null_registry w =
     complete_log (replicate 10 NullRegistrar)"
  by (simp add: observed_trace plugin_table_eq accepting_plugins_def null_registry_def
      marker_registry_def ret_def complete_log_def declared_entry_points_def plugin_identifier_def
      numeral_eq_Suc)

lemma observed_forwarded:
  assumes "i < length (observed extern registry w)"
    and "observed extern registry w ! i = Lookup name (Inr r)"
  shows "Suc i < length (observed extern registry w) \<and>
    (\<exists>entry res. observed extern registry w ! Suc i = Register entry r res \<and>
       plugin_identifier entry = name)"
proof -
  from assms have a: "i < length (trace plugin_table extern registry w)"
    and b: "trace plugin_table extern registry w ! i = Lookup name (Inr r)"
    by (simp_all add: observed_trace)
  from trace_forwarded [OF a b] plugin_table_identifier
  show ?thesis unfolding observed_trace by blast
qed

lemma observed_all_returned:
  "list_all (\<lambda>ev. failure ev = None) (observed extern registry w) \<longleftrightarrow>
     fst (RegisterPlugins extern registry w) = Inr ()"
  unfolding observed_trace RegisterPlugins_register_each by (rule trace_success [symmetric])



lemma null_run_all_returned:
  "list_all (\<lambda>ev. failure ev = None)
     (observed (accepting_plugins :: ('w, 'x) plugins) null_registry w)"
  unfolding observed_all_returned null_registry_def by (rule accepting_marker_returns)

lemma null_lookup_results:
  "lookup_results (observed (accepting_plugins :: ('w, 'x) plugins) null_registry w) =
     replicate 10 NullRegistrar"
  by (simp add: null_observed complete_log_def declared_entry_points_def numeral_eq_Suc)

text \<open>
  Claim C6. RegisterPlugins has no error path of its own: a failure of a lookup or of a
  registration function (a missing plugin, a null registrar, an exception of a registration
  function) reaches the caller unchanged, and the function validates neither its input nor
  the result of a lookup, retries nothing and recovers from nothing.

  For every registry, plugins and world: the call fails with \<open>x\<close> exactly when the last
  external call it made threw \<open>x\<close>; every call before the last returned, so the first
  failure ends the run. The call returns exactly when every external call returned. The
  calls made are an initial part of the declared sequence, whose twenty calls are pairwise
  different: no call is made a second time. Recording the calls does not change the outcome.
  The result of a lookup is not validated: whatever registrar a lookup returns, the null
  registrar included, is the argument of the registration call of that plugin, which follows
  at once. And the function stops for no reason of its own: when no external call has
  thrown, all twenty calls have been made, in the declared order, each registration function
  with the registrar its lookup returned.
\<close>

theorem RegisterPlugins_propagates_failure:
  fixes extern :: "('w, 'x) plugins"
  shows "(fst (RegisterPlugins extern registry w) = Inl x \<longleftrightarrow>
       observed extern registry w \<noteq> [] \<and> failure (last (observed extern registry w)) = Some x) \<and>
    (\<forall>ev \<in> set (butlast (observed extern registry w)). failure ev = None) \<and>
    (fst (RegisterPlugins extern registry w) = Inr () \<longleftrightarrow>
       list_all (\<lambda>ev. failure ev = None) (observed extern registry w)) \<and>
    prefix (map call_of (observed extern registry w)) declared_calls \<and>
    distinct declared_calls \<and>
    fst (RegisterPlugins (recording_plugins extern) (recording_registry registry) (w, [])) =
      fst (RegisterPlugins extern registry w) \<and>
    (\<forall>i name r.
        i < length (observed extern registry w) \<and>
        observed extern registry w ! i = Lookup name (Inr r) \<longrightarrow>
        Suc i < length (observed extern registry w) \<and>
        (\<exists>entry res. observed extern registry w ! Suc i = Register entry r res \<and>
           plugin_identifier entry = name)) \<and>
    (list_all (\<lambda>ev. failure ev = None) (observed extern registry w) \<longrightarrow>
       map call_of (observed extern registry w) = declared_calls \<and>
       registrations (observed extern registry w) =
         zip declared_entry_points (lookup_results (observed extern registry w)))"
proof (intro conjI ballI allI impI)
  show "fst (RegisterPlugins extern registry w) = Inl x \<longleftrightarrow>
       observed extern registry w \<noteq> [] \<and> failure (last (observed extern registry w)) = Some x"
    unfolding observed_trace RegisterPlugins_register_each by (rule trace_failure)
  show "fst (RegisterPlugins extern registry w) = Inr () \<longleftrightarrow>
       list_all (\<lambda>ev. failure ev = None) (observed extern registry w)"
    unfolding observed_trace RegisterPlugins_register_each by (rule trace_success)
  show "prefix (map call_of (observed extern registry w)) declared_calls"
    by (rule observed_calls_prefix)
  show "distinct declared_calls" by (rule declared_calls_distinct)
  show "fst (RegisterPlugins (recording_plugins extern) (recording_registry registry) (w, [])) =
      fst (RegisterPlugins extern registry w)"
    by (rule RegisterPlugins_recorded_result)
next
  fix ev assume "ev \<in> set (butlast (observed extern registry w))"
  then show "failure ev = None"
    unfolding observed_trace by (rule trace_butlast)
next
  fix i name r
  assume h: "i < length (observed extern registry w) \<and>
        observed extern registry w ! i = Lookup name (Inr r)"
  from observed_forwarded [OF h [THEN conjunct1] h [THEN conjunct2]]
  show "Suc i < length (observed extern registry w)"
    and "\<exists>entry res. observed extern registry w ! Suc i = Register entry r res \<and>
           plugin_identifier entry = name"
    by blast+
next
  assume "list_all (\<lambda>ev. failure ev = None) (observed extern registry w)"
  then have ok: "fst (RegisterPlugins extern registry w) = Inr ()"
    by (simp only: observed_all_returned)
  define rs where "rs = lookup_results (observed extern registry w)"
  have log: "observed extern registry w = complete_log rs" and len: "length rs = 10"
    unfolding rs_def by (rule observed_complete [OF ok])+
  show "map call_of (observed extern registry w) = declared_calls"
    by (simp add: log complete_log_calls [OF len])
  have "registrations (observed extern registry w) = zip declared_entry_points rs"
    by (simp add: log complete_log_registrations [OF len])
  then show "registrations (observed extern registry w) =
         zip declared_entry_points (lookup_results (observed extern registry w))"
    by (simp only: rs_def)
qed

theorem RegisterPlugins_propagates_failure_witness:
  "fst (RegisterPlugins (counting_plugins :: (nat, string) plugins) incomplete_registry 0) =
     Inl ''plugin not found'' \<and>
   observed (counting_plugins :: (nat, string) plugins) incomplete_registry 0 \<noteq> [] \<and>
   failure (last (observed (counting_plugins :: (nat, string) plugins) incomplete_registry 0)) =
     Some ''plugin not found'' \<and>
   list_all (\<lambda>ev. failure ev = None)
     (observed (accepting_plugins :: (unit, unit) plugins) null_registry ()) \<and>
   map call_of (observed (accepting_plugins :: (unit, unit) plugins) null_registry ()) =
     declared_calls \<and>
   registrations (observed (accepting_plugins :: (unit, unit) plugins) null_registry ()) =
     zip declared_entry_points (replicate 10 NullRegistrar)"
proof -
  have failed: "fst (RegisterPlugins (counting_plugins :: (nat, string) plugins) incomplete_registry 0) =
     Inl ''plugin not found''"
    by (rule incomplete_run_fails)
  note t = RegisterPlugins_propagates_failure
    [where extern = "counting_plugins :: (nat, string) plugins" and registry = incomplete_registry
       and w = 0 and x = "''plugin not found''", THEN conjunct1, THEN iffD1, OF failed]
  have quiet: "list_all (\<lambda>ev. failure ev = None)
     (observed (accepting_plugins :: (unit, unit) plugins) null_registry ())"
    by (rule null_run_all_returned)
  note u = RegisterPlugins_propagates_failure
    [where extern = "accepting_plugins :: (unit, unit) plugins" and registry = null_registry
       and w = "()", THEN conjunct2, THEN conjunct2, THEN conjunct2, THEN conjunct2,
     THEN conjunct2, THEN conjunct2, THEN conjunct2, THEN mp, OF quiet]
  have regs: "registrations (observed (accepting_plugins :: (unit, unit) plugins) null_registry ()) =
     zip declared_entry_points (replicate 10 NullRegistrar)"
    using u [THEN conjunct2] by (simp only: null_lookup_results)
  show ?thesis
    by (intro conjI)
       (rule failed, rule t [THEN conjunct1], rule t [THEN conjunct2], rule quiet,
        rule u [THEN conjunct1], rule regs)
qed

text \<open>
  Claim C7. RegisterPlugins has no effect of its own: beyond the ten lookups and the ten
  registration calls it computes nothing, transforms no data, does no input or output,
  changes no state outside the registry of the host, and returns no value.

  The world is changed by the external calls only: whatever relation between the world
  before and the world after every lookup of a declared identifier and every registration
  call respects (a reflexive and transitive one) also holds between the world before and
  the world after RegisterPlugins. The run makes at most twenty external calls, each one of
  the declared calls, and recording them leaves the world of the run as it is. The result
  of the function is of the unit type.
\<close>

theorem RegisterPlugins_frame:
  fixes extern :: "('w, 'x) plugins" and R :: "'w \<Rightarrow> 'w \<Rightarrow> bool"
  assumes refl: "\<And>w. R w w"
    and trans: "\<And>a b c. R a b \<Longrightarrow> R b c \<Longrightarrow> R a c"
    and lookup: "\<And>name w. name \<in> set declared_identifiers \<Longrightarrow>
        R w (snd (GetRegistrarForPlugin registry name w))"
    and call: "\<And>entry (r :: registrar_ref) w. R w (snd (extern entry r w))"
  shows "R w (snd (RegisterPlugins extern registry w)) \<and>
    length (observed extern registry w) \<le> 20 \<and>
    set (map call_of (observed extern registry w)) \<subseteq> set declared_calls \<and>
    fst (snd (RegisterPlugins (recording_plugins extern) (recording_registry registry) (w, []))) =
      snd (RegisterPlugins extern registry w)"
proof (intro conjI)
  have ids: "fst ` set plugin_table = set declared_identifiers"
    using plugin_table_fst by (metis set_map)
  show "R w (snd (RegisterPlugins extern registry w))"
    unfolding RegisterPlugins_register_each
  proof (rule register_each_frame [where R = R])
    show "R w w" for w by (rule refl)
    show "R a b \<Longrightarrow> R b c \<Longrightarrow> R a c" for a b c by (rule trans)
    show "name \<in> fst ` set plugin_table \<Longrightarrow> R w (snd (GetRegistrarForPlugin registry name w))"
      for name w unfolding ids by (rule lookup)
    show "R w (snd (extern entry r w))" for entry r w by (rule call)
  qed
  have "length (map call_of (observed extern registry w)) \<le> length declared_calls"
    by (rule prefix_length_le [OF observed_calls_prefix])
  then show "length (observed extern registry w) \<le> 20"
    by (simp add: declared_calls_length)
  show "set (map call_of (observed extern registry w)) \<subseteq> set declared_calls"
    by (rule set_mono_prefix [OF observed_calls_prefix])
  show "fst (snd (RegisterPlugins (recording_plugins extern) (recording_registry registry) (w, []))) =
      snd (RegisterPlugins extern registry w)"
    by (rule RegisterPlugins_recorded_world)
qed

theorem RegisterPlugins_frame_witness:
  "(5::nat) \<le> snd (RegisterPlugins (counting_plugins :: (nat, unit) plugins) counting_registry 5)"
proof -
  have "(5::nat) \<le> snd (RegisterPlugins (counting_plugins :: (nat, unit) plugins) counting_registry 5) \<and>
    length (observed (counting_plugins :: (nat, unit) plugins) counting_registry 5) \<le> 20 \<and>
    set (map call_of (observed (counting_plugins :: (nat, unit) plugins) counting_registry 5))
      \<subseteq> set declared_calls \<and>
    fst (snd (RegisterPlugins (recording_plugins (counting_plugins :: (nat, unit) plugins))
      (recording_registry counting_registry) (5, []))) =
      snd (RegisterPlugins (counting_plugins :: (nat, unit) plugins) counting_registry 5)"
  proof (rule RegisterPlugins_frame [where R = "(\<le>)"])
    show "w \<le> w" for w :: nat by simp
    show "a \<le> b \<Longrightarrow> b \<le> c \<Longrightarrow> a \<le> c" for a b c :: nat by simp
    show "w \<le> snd (GetRegistrarForPlugin (counting_registry :: (nat, unit) PluginRegistry) name w)"
      for name w by (simp add: counting_registry_def)
    show "w \<le> snd ((counting_plugins :: (nat, unit) plugins) entry r w)" for entry r w
      by (simp add: counting_plugins_def)
  qed
  then show ?thesis by (rule conjunct1)
qed




text \<open>
  Claim C9. RegisterPlugins never looks at a registrar: when a lookup returns the null
  registrar, the registration function of that plugin is still called, with the null
  registrar, and no registration call is left out.

  For every registry, plugins and world, and for every registrar \<open>r\<close>, null or not: a
  lookup in the log that returned \<open>r\<close> is followed at once by the call of the registration
  function of the identifier looked up, with \<open>r\<close> as its argument. When the run returns,
  ten registration calls have been made, the calls are the declared sequence, each
  registration function has received the registrar its lookup returned, and the one at
  each position where the lookup returned null has received null. The function never stops
  by itself, whatever the registrars are: when no external call has thrown, the run returns
  with all ten registration calls made, and when the run fails, the last external call
  made has thrown the exception it fails with.
\<close>

theorem RegisterPlugins_forwards_unchecked:
  fixes extern :: "('w, 'x) plugins"
  shows "(\<forall>i name r.
        i < length (observed extern registry w) \<and>
        observed extern registry w ! i = Lookup name (Inr r) \<longrightarrow>
        Suc i < length (observed extern registry w) \<and>
        (\<exists>entry res. observed extern registry w ! Suc i = Register entry r res \<and>
           plugin_identifier entry = name)) \<and>
    (fst (RegisterPlugins extern registry w) = Inr () \<longrightarrow>
       length (registrations (observed extern registry w)) = 10 \<and>
       map call_of (observed extern registry w) = declared_calls \<and>
       (\<forall>i<10. lookup_results (observed extern registry w) ! i = NullRegistrar \<longrightarrow>
          registrations (observed extern registry w) ! i =
            (declared_entry_points ! i, NullRegistrar)) \<and>
       registrations (observed extern registry w) =
         zip declared_entry_points (lookup_results (observed extern registry w))) \<and>
    (list_all (\<lambda>ev. failure ev = None) (observed extern registry w) \<longrightarrow>
       fst (RegisterPlugins extern registry w) = Inr () \<and>
       length (registrations (observed extern registry w)) = 10 \<and>
       map call_of (observed extern registry w) = declared_calls) \<and>
    (\<forall>x. fst (RegisterPlugins extern registry w) = Inl x \<longrightarrow>
       observed extern registry w \<noteq> [] \<and>
       failure (last (observed extern registry w)) = Some x)"
proof -
  have returned: "length (registrations (observed extern registry w)) = 10 \<and>
       map call_of (observed extern registry w) = declared_calls \<and>
       (\<forall>i<10. lookup_results (observed extern registry w) ! i = NullRegistrar \<longrightarrow>
          registrations (observed extern registry w) ! i =
            (declared_entry_points ! i, NullRegistrar)) \<and>
       registrations (observed extern registry w) =
         zip declared_entry_points (lookup_results (observed extern registry w))"
    if ok: "fst (RegisterPlugins extern registry w) = Inr ()"
  proof -
    define rs where "rs = lookup_results (observed extern registry w)"
    have log: "observed extern registry w = complete_log rs" and len: "length rs = 10"
      unfolding rs_def by (rule observed_complete [OF ok])+
    have regs: "registrations (observed extern registry w) = zip declared_entry_points rs"
      by (simp add: log complete_log_registrations [OF len])
    have calls: "map call_of (observed extern registry w) = declared_calls"
      by (simp add: log complete_log_calls [OF len])
    show ?thesis
      unfolding rs_def [symmetric]
    proof (intro conjI allI impI)
      show "length (registrations (observed extern registry w)) = 10"
        by (simp add: regs len declared_lengths)
      show "map call_of (observed extern registry w) = declared_calls" by (rule calls)
      show "registrations (observed extern registry w) = zip declared_entry_points rs"
        by (rule regs)
      fix i :: nat
      assume "i < 10" and "rs ! i = NullRegistrar"
      then show "registrations (observed extern registry w) ! i =
            (declared_entry_points ! i, NullRegistrar)"
        by (simp add: regs len declared_lengths)
    qed
  qed
  show ?thesis
  proof (intro conjI allI impI)
    fix i name r
    assume h: "i < length (observed extern registry w) \<and>
        observed extern registry w ! i = Lookup name (Inr r)"
    from observed_forwarded [OF h [THEN conjunct1] h [THEN conjunct2]]
    show "Suc i < length (observed extern registry w)"
      and "\<exists>entry res. observed extern registry w ! Suc i = Register entry r res \<and>
           plugin_identifier entry = name"
      by blast+
  next
    assume ok: "fst (RegisterPlugins extern registry w) = Inr ()"
    note r = returned [OF ok]
    show "length (registrations (observed extern registry w)) = 10"
      by (rule r [THEN conjunct1])
    show "map call_of (observed extern registry w) = declared_calls"
      by (rule r [THEN conjunct2, THEN conjunct1])
    show "registrations (observed extern registry w) =
         zip declared_entry_points (lookup_results (observed extern registry w))"
      by (rule r [THEN conjunct2, THEN conjunct2, THEN conjunct2])
    fix i :: nat
    assume "i < 10" and "lookup_results (observed extern registry w) ! i = NullRegistrar"
    with r show "registrations (observed extern registry w) ! i =
            (declared_entry_points ! i, NullRegistrar)"
      by blast
  next
    assume "list_all (\<lambda>ev. failure ev = None) (observed extern registry w)"
    then have ok: "fst (RegisterPlugins extern registry w) = Inr ()"
      by (simp only: observed_all_returned)
    note r = returned [OF ok]
    show "fst (RegisterPlugins extern registry w) = Inr ()" by (rule ok)
    show "length (registrations (observed extern registry w)) = 10"
      by (rule r [THEN conjunct1])
    show "map call_of (observed extern registry w) = declared_calls"
      by (rule r [THEN conjunct2, THEN conjunct1])
  next
    fix x
    assume f: "fst (RegisterPlugins extern registry w) = Inl x"
    have "fst (RegisterPlugins extern registry w) = Inl x \<longleftrightarrow>
       observed extern registry w \<noteq> [] \<and> failure (last (observed extern registry w)) = Some x"
      unfolding observed_trace RegisterPlugins_register_each by (rule trace_failure)
    with f show "observed extern registry w \<noteq> []"
      and "failure (last (observed extern registry w)) = Some x"
      by blast+
  qed
qed

theorem RegisterPlugins_forwards_unchecked_witness:
  "0 < length (observed (accepting_plugins :: (unit, unit) plugins) null_registry ()) \<and>
   observed (accepting_plugins :: (unit, unit) plugins) null_registry () ! 0 =
     Lookup ''DartotsuExtensionBridgePluginCApi'' (Inr NullRegistrar) \<and>
   (\<exists>entry res.
      observed (accepting_plugins :: (unit, unit) plugins) null_registry () ! Suc 0 =
        Register entry NullRegistrar res \<and>
      plugin_identifier entry = ''DartotsuExtensionBridgePluginCApi'') \<and>
   fst (RegisterPlugins (accepting_plugins :: (unit, unit) plugins) null_registry ()) = Inr () \<and>
   length (registrations (observed (accepting_plugins :: (unit, unit) plugins) null_registry ())) = 10 \<and>
   registrations (observed (accepting_plugins :: (unit, unit) plugins) null_registry ()) =
     zip declared_entry_points (replicate 10 NullRegistrar)"
proof -
  have a: "0 < length (observed (accepting_plugins :: (unit, unit) plugins) null_registry ()) \<and>
   observed (accepting_plugins :: (unit, unit) plugins) null_registry () ! 0 =
     Lookup ''DartotsuExtensionBridgePluginCApi'' (Inr NullRegistrar)"
    by (simp add: null_observed complete_log_def declared_entry_points_def plugin_identifier_def
        numeral_eq_Suc)
  note t = RegisterPlugins_forwards_unchecked
    [where extern = "accepting_plugins :: (unit, unit) plugins" and registry = null_registry
       and w = "()", THEN conjunct1, THEN spec, THEN spec, THEN spec, THEN mp, OF a]
  have ok: "fst (RegisterPlugins (accepting_plugins :: (unit, unit) plugins) null_registry ()) = Inr ()"
    unfolding null_registry_def by (rule accepting_marker_returns)
  note u = RegisterPlugins_forwards_unchecked
    [where extern = "accepting_plugins :: (unit, unit) plugins" and registry = null_registry
       and w = "()", THEN conjunct2, THEN conjunct1, THEN mp, OF ok]
  have regs: "registrations (observed (accepting_plugins :: (unit, unit) plugins) null_registry ()) =
     zip declared_entry_points (replicate 10 NullRegistrar)"
    using u [THEN conjunct2, THEN conjunct2, THEN conjunct2] by (simp only: null_lookup_results)
  show ?thesis
    by (intro conjI)
       (rule a [THEN conjunct1], rule a [THEN conjunct2], rule t [THEN conjunct2], rule ok,
        rule u [THEN conjunct1], rule regs)
qed



end
